theory Spec2Isabelle
  imports Main "HOL-Library.Sublist"
begin

section \<open>Strings\<close>

text \<open>
  A Python \<open>str\<close> is a sequence of Unicode code points, so a string is a list of
  natural numbers, one per code point. ASCII literals of the source are written
  \<open>ascii ''...''\<close>; the few non-ASCII literals are spelled out as code points, exactly
  as they stand in the source file.
\<close>

type_synonym ustr = "nat list"

type_synonym bytes = "char list"

definition ascii :: "string \<Rightarrow> ustr" where
  "ascii s = map of_char s"

text \<open>Python's \<open>needle in haystack\<close> on strings: the needle occurs at some position.\<close>

fun starts_with :: "ustr \<Rightarrow> ustr \<Rightarrow> bool" where
  "starts_with [] ys = True"
| "starts_with (x # xs) [] = False"
| "starts_with (x # xs) (y # ys) = (x = y \<and> starts_with xs ys)"

fun contains :: "ustr \<Rightarrow> ustr \<Rightarrow> bool" where
  "contains xs [] = (xs = [])"
| "contains xs (y # ys) = (starts_with xs (y # ys) \<or> contains xs ys)"

text \<open>\<open>d.get(k, default)\<close> on a dictionary given as its items in insertion order.\<close>

definition dict_get :: "('k \<times> 'v) list \<Rightarrow> 'k \<Rightarrow> 'v \<Rightarrow> 'v" where
  "dict_get d k dflt = (case map_of d k of Some v \<Rightarrow> v | None \<Rightarrow> dflt)"

text \<open>
  Two tables of the interpreter's Unicode database vary with its version and are
  parameters of the model: which code points beyond ASCII are decimal digits (what
  \<open>\d\<close> matches besides \<open>0\<close> to \<open>9\<close>), and how a code point beyond ASCII is
  lower-cased, given the text before and after it (one code point may become
  several, and capital sigma depends on its position). Every theorem below holds for
  all values of these tables.
\<close>

record unicode_db =
  decimal_digit :: "nat \<Rightarrow> bool"
  lower_full :: "ustr \<Rightarrow> nat \<Rightarrow> ustr \<Rightarrow> ustr"

text \<open>
  \<open>str.lower()\<close>: code point by code point; on ASCII only \<open>A\<close> to \<open>Z\<close> change.
\<close>

fun lower_from :: "unicode_db \<Rightarrow> ustr \<Rightarrow> ustr \<Rightarrow> ustr" where
  "lower_from U before [] = []"
| "lower_from U before (c # after) =
     (if c < 128 then [if 65 \<le> c \<and> c \<le> 90 then c + 32 else c]
      else lower_full U before c after) @ lower_from U (before @ [c]) after"

definition py_lower :: "unicode_db \<Rightarrow> ustr \<Rightarrow> ustr" where
  "py_lower U s = lower_from U [] s"

text \<open>
  The code points that \<open>str.isspace\<close>, \<open>str.strip()\<close> and the pattern class \<open>\s\<close>
  treat as white space.
\<close>

definition isspace :: "nat \<Rightarrow> bool" where
  "isspace c \<longleftrightarrow>
     (9 \<le> c \<and> c \<le> 13) \<or> (28 \<le> c \<and> c \<le> 32) \<or> c = 0x85 \<or> c = 0xa0 \<or> c = 0x1680 \<or>
     (0x2000 \<le> c \<and> c \<le> 0x200a) \<or> c = 0x2028 \<or> c = 0x2029 \<or> c = 0x202f \<or>
     c = 0x205f \<or> c = 0x3000"

definition strip :: "ustr \<Rightarrow> ustr" where
  "strip s = rev (dropWhile isspace (rev (dropWhile isspace s)))"

section \<open>URL validator\<close>

text \<open>
  The pattern of \<open>validate_url\<close> has no back-reference, look-around or possessive
  quantifier, so \<open>match\<close> succeeds exactly when the text belongs to the language of
  the pattern. Patterns are regular expressions over predicates on code points, and
  matching takes derivatives, one code point at a time.
\<close>

datatype rx = Fail | Eps | Atom "nat \<Rightarrow> bool" | Alt rx rx | Seq rx rx | Star rx

fun nullable :: "rx \<Rightarrow> bool" where
  "nullable Fail = False"
| "nullable Eps = True"
| "nullable (Atom p) = False"
| "nullable (Alt r s) = (nullable r \<or> nullable s)"
| "nullable (Seq r s) = (nullable r \<and> nullable s)"
| "nullable (Star r) = True"

fun rx_alt :: "rx \<Rightarrow> rx \<Rightarrow> rx" where
  "rx_alt Fail s = s"
| "rx_alt r Fail = r"
| "rx_alt r s = Alt r s"

fun rx_seq :: "rx \<Rightarrow> rx \<Rightarrow> rx" where
  "rx_seq Fail s = Fail"
| "rx_seq Eps s = s"
| "rx_seq r s = Seq r s"

fun deriv :: "nat \<Rightarrow> rx \<Rightarrow> rx" where
  "deriv c Fail = Fail"
| "deriv c Eps = Fail"
| "deriv c (Atom p) = (if p c then Eps else Fail)"
| "deriv c (Alt r s) = rx_alt (deriv c r) (deriv c s)"
| "deriv c (Seq r s) =
     (if nullable r then rx_alt (rx_seq (deriv c r) s) (deriv c s)
      else rx_seq (deriv c r) s)"
| "deriv c (Star r) = rx_seq (deriv c r) (Star r)"

fun rx_match :: "rx \<Rightarrow> ustr \<Rightarrow> bool" where
  "rx_match r [] = nullable r"
| "rx_match r (c # cs) = rx_match (deriv c r) cs"

text \<open>
  The language of a pattern, as a set of texts; the matcher is proved below to decide
  membership in it.
\<close>

inductive_set lang_star :: "ustr set \<Rightarrow> ustr set" for A :: "ustr set" where
  star_empty: "[] \<in> lang_star A"
| star_step: "u \<in> A \<Longrightarrow> v \<in> lang_star A \<Longrightarrow> u @ v \<in> lang_star A"

fun lang :: "rx \<Rightarrow> ustr set" where
  "lang Fail = {}"
| "lang Eps = {[]}"
| "lang (Atom p) = {[c] | c. p c}"
| "lang (Alt r s) = lang r \<union> lang s"
| "lang (Seq r s) = {u @ v | u v. u \<in> lang r \<and> v \<in> lang s}"
| "lang (Star r) = lang_star (lang r)"

text \<open>The derived forms \<open>r?\<close>, \<open>r+\<close>, \<open>r{n}\<close>, \<open>r{0,n}\<close>, \<open>r{m,n}\<close> and concatenation.\<close>

definition rx_opt :: "rx \<Rightarrow> rx" where
  "rx_opt r = Alt r Eps"

definition rx_plus :: "rx \<Rightarrow> rx" where
  "rx_plus r = Seq r (Star r)"

fun seqs :: "rx list \<Rightarrow> rx" where
  "seqs [] = Eps"
| "seqs (r # rs) = Seq r (seqs rs)"

fun rx_exactly :: "nat \<Rightarrow> rx \<Rightarrow> rx" where
  "rx_exactly 0 r = Eps"
| "rx_exactly (Suc n) r = Seq r (rx_exactly n r)"

fun rx_at_most :: "nat \<Rightarrow> rx \<Rightarrow> rx" where
  "rx_at_most 0 r = Eps"
| "rx_at_most (Suc n) r = rx_opt (Seq r (rx_at_most n r))"

definition rx_between :: "nat \<Rightarrow> nat \<Rightarrow> rx \<Rightarrow> rx" where
  "rx_between m n r = Seq (rx_exactly m r) (rx_at_most (n - m) r)"

text \<open>
  Atoms under \<open>re.IGNORECASE\<close> on a \<open>str\<close> pattern. A literal lower-case letter
  matches itself and its capital; in addition \<open>s\<close> matches U+017F (long s), \<open>k\<close>
  matches U+212A (Kelvin sign) and \<open>i\<close> matches U+0130 and U+0131. The class
  \<open>[A-Z]\<close> matches the 52 ASCII letters and these four code points.
\<close>

definition lit :: "char \<Rightarrow> rx" where
  "lit x = Atom (\<lambda>c. c = of_char x)"

definition ignorecase_eq :: "nat \<Rightarrow> nat \<Rightarrow> bool" where
  "ignorecase_eq x c \<longleftrightarrow>
     c = x \<or> c + 32 = x \<or> (x = 0x73 \<and> c = 0x17f) \<or> (x = 0x6b \<and> c = 0x212a) \<or>
     (x = 0x69 \<and> (c = 0x130 \<or> c = 0x131))"

definition lit_i :: "char \<Rightarrow> rx" where
  "lit_i x = Atom (ignorecase_eq (of_char x))"

definition letter_i :: "nat \<Rightarrow> bool" where
  "letter_i c \<longleftrightarrow> (65 \<le> c \<and> c \<le> 90) \<or> (97 \<le> c \<and> c \<le> 122) \<or>
     c = 0x130 \<or> c = 0x131 \<or> c = 0x17f \<or> c = 0x212a"

definition ascii_digit :: "nat \<Rightarrow> bool" where
  "ascii_digit c \<longleftrightarrow> 48 \<le> c \<and> c \<le> 57"

definition digit :: "unicode_db \<Rightarrow> nat \<Rightarrow> bool" where
  "digit U c \<longleftrightarrow> ascii_digit c \<or> (128 \<le> c \<and> decimal_digit U c)"

text \<open>
  The compiled pattern, piece by piece as in the source. The final \<open>$\<close> matches at
  the end of the text or before a last newline.
\<close>

definition url_pattern :: "unicode_db \<Rightarrow> rx" where
  "url_pattern U =
    (let alnum = Atom (\<lambda>c. letter_i c \<or> ascii_digit c);
         alnum_dash = Atom (\<lambda>c. letter_i c \<or> ascii_digit c \<or> c = of_char CHR ''-'');
         d = Atom (digit U);
         dot = lit CHR ''.''
     in seqs
      [lit_i CHR ''h'', lit_i CHR ''t'', lit_i CHR ''t'', lit_i CHR ''p'',
       rx_opt (lit_i CHR ''s''), lit CHR '':'', lit CHR ''/'', lit CHR ''/'',
       Alt (seqs [rx_plus (seqs [alnum, rx_opt (seqs [rx_at_most 61 alnum_dash, alnum]), dot]),
                  rx_between 2 6 (Atom letter_i), rx_opt dot])
        (Alt (seqs (map lit_i ''localhost''))
             (seqs [rx_between 1 3 d, dot, rx_between 1 3 d, dot,
                    rx_between 1 3 d, dot, rx_between 1 3 d])),
       rx_opt (seqs [lit CHR '':'', rx_plus d]),
       Alt (rx_opt (lit CHR ''/''))
           (seqs [Atom (\<lambda>c. c = of_char CHR ''/'' \<or> c = of_char CHR ''?''),
                  rx_plus (Atom (\<lambda>c. \<not> isspace c))]),
       rx_opt (lit (CHR 0x0A))])"

definition validate_url :: "unicode_db \<Rightarrow> ustr \<Rightarrow> bool" where
  "validate_url U url =
     (if url = [] \<or> strip url = [] then False
      else rx_match (url_pattern U) (strip url))"

text \<open>
  Whether a text contains an \<open>http\<close> or \<open>https\<close> URL scheme: the scheme name is
  ASCII and compared without regard to the case of ASCII letters.
\<close>

definition ascii_fold :: "nat \<Rightarrow> nat" where
  "ascii_fold c = (if 65 \<le> c \<and> c \<le> 90 then c + 32 else c)"

definition has_http_scheme :: "ustr \<Rightarrow> bool" where
  "has_http_scheme s \<longleftrightarrow>
     contains (ascii ''http://'') (map ascii_fold s) \<or>
     contains (ascii ''https://'') (map ascii_fold s)"

section \<open>Platform identifier\<close>

text \<open>
  The table of \<open>get_platform_name\<close> in insertion order, which is the order in which
  the loop visits it, and the label returned when nothing matches (line 417 of
  \<open>app.py\<close>, as the code points the file holds).
\<close>

definition platforms :: "(ustr \<times> ustr) list" where
  "platforms =
     [(ascii ''youtube.com'', ascii ''YouTube''),
      (ascii ''youtu.be'', ascii ''YouTube''),
      (ascii ''tiktok.com'', ascii ''TikTok''),
      (ascii ''instagram.com'', ascii ''Instagram''),
      (ascii ''facebook.com'', ascii ''Facebook''),
      (ascii ''twitter.com'', ascii ''X (Twitter)''),
      (ascii ''x.com'', ascii ''X (Twitter)''),
      (ascii ''vimeo.com'', ascii ''Vimeo''),
      (ascii ''dailymotion.com'', ascii ''Dailymotion''),
      (ascii ''twitch.tv'', ascii ''Twitch''),
      (ascii ''reddit.com'', ascii ''Reddit''),
      (ascii ''soundcloud.com'', ascii ''SoundCloud''),
      (ascii ''spotify.com'', ascii ''Spotify'')]"

definition other_label :: ustr where
  "other_label = [0xd7, 0xd7, 0x2014, 0xd7, 0xa8]"

fun platforms_loop :: "unicode_db \<Rightarrow> (ustr \<times> ustr) list \<Rightarrow> ustr \<Rightarrow> ustr" where
  "platforms_loop U [] url = other_label"
| "platforms_loop U ((domain, name) # rest) url =
     (if contains domain (py_lower U url) then name else platforms_loop U rest url)"

definition get_platform_name :: "unicode_db \<Rightarrow> ustr \<Rightarrow> ustr" where
  "get_platform_name U url = platforms_loop U platforms url"

section \<open>Option builder\<close>

text \<open>
  The label of the best-available quality tier, a non-ASCII literal of the source
  (lines 507, 529, 716 and 722 of \<open>app.py\<close>), as the code points the file holds.
\<close>

definition best_label :: ustr where
  "best_label = [0xd7, 0x201d, 0xd7, 0x203a, 0xd7, 0x2122, 0x20,
                 0xd7, 0x2dc, 0xd7, 0x2022, 0xd7, 0x2018]"

text \<open>
  The configuration dictionary handed to the extraction library. A key that the
  dictionary may lack (\<open>format\<close> before a branch sets it, \<open>postprocessors\<close>) is an
  option, \<open>None\<close> standing for an absent key; the value of \<open>merge_output_format\<close> is a
  string or Python's \<open>None\<close>. Each post-processor is itself a small dictionary of
  strings.
\<close>

record ydl_options =
  outtmpl :: ustr
  quiet :: bool
  no_warnings :: bool
  merge_output_format :: "ustr option"
  postprocessor_args :: "ustr list"
  http_headers :: "(ustr \<times> ustr) list"
  format :: "ustr option"
  postprocessors :: "(ustr \<times> ustr) list list option"

text \<open>\<open>os.path.join\<close> of two components on a POSIX system.\<close>

definition os_path_join :: "ustr \<Rightarrow> ustr \<Rightarrow> ustr" where
  "os_path_join a b =
     (if starts_with (ascii ''/'') b then b
      else if a = [] \<or> last a = of_char CHR ''/'' then a @ b
      else a @ ascii ''/'' @ b)"

definition user_agent :: ustr where
  "user_agent = ascii (''Mozilla/5.0 (Windows NT 10.0; Win64; x64) AppleWebKit/537.36 '' @
                       ''(KHTML, like Gecko) Chrome/120.0.0.0 Safari/537.36'')"

definition base_opts :: "ustr \<Rightarrow> ustr \<Rightarrow> ustr \<Rightarrow> ydl_options" where
  "base_opts temp_dir download_type extension =
     \<lparr> outtmpl = os_path_join temp_dir (ascii ''%(title)s.%(ext)s''),
       quiet = False,
       no_warnings = False,
       merge_output_format =
         (if download_type = ascii ''video'' then Some extension else None),
       postprocessor_args = [ascii ''-y''],
       http_headers =
         [(ascii ''User-Agent'', user_agent),
          (ascii ''Accept'',
             ascii ''text/html,application/xhtml+xml,application/xml;q=0.9,*/*;q=0.8''),
          (ascii ''Accept-Language'', ascii ''en-US,en;q=0.5'')],
       format = None,
       postprocessors = None \<rparr>"

definition video_quality_map :: "(ustr \<times> ustr) list" where
  "video_quality_map =
     [(best_label, ascii ''bestvideo+bestaudio/best''),
      (ascii ''4K (2160p)'', ascii ''bestvideo[height<=2160]+bestaudio/best[height<=2160]''),
      (ascii ''1080p'', ascii ''bestvideo[height<=1080]+bestaudio/best[height<=1080]''),
      (ascii ''720p'', ascii ''bestvideo[height<=720]+bestaudio/best[height<=720]'')]"

definition audio_quality_map :: "(ustr \<times> ustr) list" where
  "audio_quality_map =
     [(best_label, ascii ''0''),
      (ascii ''192kbps'', ascii ''192''),
      (ascii ''128kbps'', ascii ''128'')]"

definition format_map :: "(ustr \<times> ustr) list" where
  "format_map =
     [(ascii ''mp3'', ascii ''mp3''),
      (ascii ''m4a'', ascii ''m4a''),
      (ascii ''wav'', ascii ''wav'')]"

definition build_ydl_options :: "ustr \<Rightarrow> ustr \<Rightarrow> ustr \<Rightarrow> ustr \<Rightarrow> ydl_options" where
  "build_ydl_options temp_dir download_type extension quality =
     (let opts = base_opts temp_dir download_type extension in
      if download_type = ascii ''video'' then
        (let opts = opts\<lparr>format :=
                      Some (dict_get video_quality_map quality
                              (ascii ''bestvideo+bestaudio/best''))\<rparr> in
         if extension = ascii ''mp4'' then
           opts\<lparr>postprocessors :=
                  Some [[(ascii ''key'', ascii ''FFmpegVideoConvertor''),
                         (ascii ''preferedformat'', ascii ''mp4'')]]\<rparr>
         else if extension = ascii ''mkv'' then
           opts\<lparr>merge_output_format := Some (ascii ''mkv'')\<rparr>
         else if extension = ascii ''webm'' then
           opts\<lparr>merge_output_format := Some (ascii ''webm'')\<rparr>
         else opts)
      else
        (let audio_quality = dict_get audio_quality_map quality (ascii ''0'');
             audio_format = dict_get format_map extension (ascii ''mp3'')
         in opts\<lparr>format := Some (ascii ''bestaudio/best''),
                 postprocessors :=
                   Some [[(ascii ''key'', ascii ''FFmpegExtractAudio''),
                          (ascii ''preferredcodec'', audio_format),
                          (ascii ''preferredquality'', audio_quality)]]\<rparr>))"

section \<open>The outside world\<close>

text \<open>
  An exception carries the text that \<open>str(e)\<close> gives. The world holds the
  directories the program can see, each with its entries (name and content) in the
  order in which the system enumerates them, and the lines sent to the console. The
  entries are regular files, which is what a fetch writes into its directory. Each
  call site of \<open>log_to_console\<close> is one constructor that carries the values its
  message interpolates; the time stamp is left out.
\<close>

datatype exn = Exception ustr

fun exn_str :: "exn \<Rightarrow> ustr" where
  "exn_str (Exception m) = m"

datatype pyval = PyNone | PyInt int | PyStr ustr | PyList "pyval list"

datatype log_event =
    Log_extracting ustr
  | Log_extracted pyval
  | Log_extract_error ustr
  | Log_start_download ustr ustr ustr
  | Log_download_complete ustr
  | Log_download_error ustr

record world =
  files :: "ustr \<Rightarrow> (ustr \<times> bytes) list option"
  console :: "log_event list"

definition log_to_console :: "log_event \<Rightarrow> world \<Rightarrow> world" where
  "log_to_console ev w = w\<lparr>console := console w @ [ev]\<rparr>"

text \<open>
  What the program does not own: the name \<open>tempfile\<close> picks for a new directory,
  and the two modes of the extraction library. A fetch writes what it writes and
  raises or not; an inspection raises, or returns a dictionary or \<open>None\<close>.
\<close>

record env =
  mkdtemp :: "world \<Rightarrow> ustr"
  ydl_download :: "ydl_options \<Rightarrow> ustr list \<Rightarrow> world \<Rightarrow> exn option \<times> world"
  ydl_extract_info :: "ustr \<Rightarrow> world \<Rightarrow> (exn + (ustr \<times> pyval) list option) \<times> world"

section \<open>Metadata extractor\<close>

record metadata =
  md_title :: pyval
  md_duration :: pyval
  md_thumbnail :: pyval
  md_uploader :: pyval
  md_view_count :: pyval
  md_platform :: ustr
  md_url :: ustr
  md_formats :: pyval

definition extract_metadata ::
  "unicode_db \<Rightarrow> env \<Rightarrow> ustr \<Rightarrow> world \<Rightarrow> (exn + metadata option) \<times> world" where
  "extract_metadata U env url w =
     (let w1 = log_to_console (Log_extracting url) w in
      case ydl_extract_info env url w1 of
        (Inl e, w2) \<Rightarrow> (Inl e, log_to_console (Log_extract_error (exn_str e)) w2)
      | (Inr None, w2) \<Rightarrow> (Inr None, w2)
      | (Inr (Some []), w2) \<Rightarrow> (Inr None, w2)
      | (Inr (Some info), w2) \<Rightarrow>
          (let md = \<lparr> md_title = dict_get info (ascii ''title'') (PyStr (ascii ''Unknown'')),
                      md_duration = dict_get info (ascii ''duration'') (PyInt 0),
                      md_thumbnail = dict_get info (ascii ''thumbnail'') (PyStr []),
                      md_uploader = dict_get info (ascii ''uploader'') (PyStr (ascii ''Unknown'')),
                      md_view_count = dict_get info (ascii ''view_count'') (PyInt 0),
                      md_platform = get_platform_name U url,
                      md_url = url,
                      md_formats = dict_get info (ascii ''formats'') (PyList []) \<rparr>
           in (Inr (Some md), log_to_console (Log_extracted (md_title md)) w2)))"

section \<open>Download orchestrator\<close>

text \<open>
  The message of the error raised when the fetch left no file (line 577 of
  \<open>app.py\<close>, as the code points the file holds).
\<close>

definition no_file_message :: ustr where
  "no_file_message =
     [0xd7, 0x153, 0xd7, 0x20, 0xd7, 0xa0, 0xd7, 0xd7, 0xa6, 0xd7, 0x20, 0xd7, 0xa7,
      0xd7, 0x2022, 0xd7, 0x2018, 0xd7, 0xa5, 0x20, 0xd7, 0xa9, 0xd7, 0x201d, 0xd7,
      0x2022, 0xd7, 0xa8, 0xd7, 0x201c]"

text \<open>
  \<open>tempfile.TemporaryDirectory()\<close> creates an empty directory on entry and removes
  it with all it holds on exit, however the block is left.
\<close>

definition enter_scratch :: "env \<Rightarrow> world \<Rightarrow> ustr \<times> world" where
  "enter_scratch env w =
     (let temp_dir = mkdtemp env w in (temp_dir, w\<lparr>files := (files w)(temp_dir \<mapsto> [])\<rparr>))"

definition exit_scratch :: "ustr \<Rightarrow> world \<Rightarrow> world" where
  "exit_scratch temp_dir w = w\<lparr>files := (files w)(temp_dir := None)\<rparr>"

text \<open>\<open>list(Path(temp_dir).glob('*'))\<close>: the entries of the directory, none if it is gone.\<close>

definition glob_all :: "ustr \<Rightarrow> world \<Rightarrow> (ustr \<times> bytes) list" where
  "glob_all temp_dir w = (case files w temp_dir of None \<Rightarrow> [] | Some entries \<Rightarrow> entries)"

text \<open>
  The body of the \<open>with\<close> block: the \<open>try\<close> and its handler, which logs and raises
  again what the fetch raised and also the error raised for a missing file.
\<close>

definition fetch_and_read ::
  "env \<Rightarrow> ustr \<Rightarrow> ydl_options \<Rightarrow> ustr \<Rightarrow> world \<Rightarrow> (exn + ustr \<times> bytes) \<times> world" where
  "fetch_and_read env url ydl_opts temp_dir w =
     (case ydl_download env ydl_opts [url] w of
        (Some e, w1) \<Rightarrow> (Inl e, log_to_console (Log_download_error (exn_str e)) w1)
      | (None, w1) \<Rightarrow>
          (case glob_all temp_dir w1 of
             downloaded_file # others \<Rightarrow>
               (Inr (fst downloaded_file, snd downloaded_file),
                log_to_console (Log_download_complete (fst downloaded_file)) w1)
           | [] \<Rightarrow>
               (Inl (Exception no_file_message),
                log_to_console (Log_download_error no_file_message) w1)))"

definition download_content ::
  "env \<Rightarrow> ustr \<Rightarrow> ustr \<Rightarrow> ustr \<Rightarrow> ustr \<Rightarrow> world \<Rightarrow> (exn + ustr \<times> bytes) \<times> world" where
  "download_content env url download_type extension quality w =
     (let w0 = log_to_console (Log_start_download download_type extension quality) w;
          (temp_dir, w1) = enter_scratch env w0;
          ydl_opts = build_ydl_options temp_dir download_type extension quality;
          (result, w2) = fetch_and_read env url ydl_opts temp_dir w1
      in (result, exit_scratch temp_dir w2))"

section \<open>Session state and the page script\<close>

text \<open>
  The three keys of the session state, \<open>None\<close> as the script initialises them. One
  run of \<open>main\<close> reads the widgets, whose values are the input of the run, and
  reports to the user; each call of \<open>st.error\<close> and \<open>st.success\<close> is one
  constructor.
\<close>

record session_state =
  metadata :: "metadata option"
  file_ready :: "bytes option"
  file_name :: "ustr option"

record widgets =
  url_input :: ustr
  analyze_btn :: bool
  download_type_choice :: ustr
  extension_video :: ustr
  extension_audio :: ustr
  quality_video :: ustr
  quality_audio :: ustr
  download_btn :: bool

datatype analyze_error =
  Login_required | Instagram_login | Access_blocked | Not_available | Raw_error ustr

datatype download_error = Download_blocked | Download_raw ustr

datatype ui_event =
    Invalid_url_error
  | Analyze_success
  | Cannot_analyze_error
  | Analyze_error analyze_error
  | Download_success
  | Download_error download_error

text \<open>The label of the video choice (lines 693, 699 and 739 of \<open>app.py\<close>).\<close>

definition video_label :: ustr where
  "video_label = [0xd7, 0x2022, 0xd7, 0x2122, 0xd7, 0x201c, 0xd7, 0xd7, 0x2022]"

text \<open>The chain of tests on the text of an extraction error (lines 644 to 654).\<close>

definition classify_analyze_error :: "unicode_db \<Rightarrow> ustr \<Rightarrow> analyze_error" where
  "classify_analyze_error U error_msg =
     (if contains (ascii ''login'') (py_lower U error_msg) \<or>
         contains (ascii ''cookies'') (py_lower U error_msg) then Login_required
      else if contains (ascii ''instagram'') (py_lower U error_msg) then Instagram_login
      else if contains (ascii ''403'') error_msg \<or>
              contains (ascii ''blocked'') (py_lower U error_msg) \<or>
              contains (ascii ''rate'') (py_lower U error_msg) then Access_blocked
      else if contains (ascii ''not available'') (py_lower U error_msg) then Not_available
      else Raw_error (take 100 error_msg))"

definition handle_analysis ::
  "unicode_db \<Rightarrow> env \<Rightarrow> widgets \<Rightarrow> session_state \<times> world \<Rightarrow>
     session_state \<times> ui_event list \<times> world" where
  "handle_analysis U env inp sw =
     (case sw of (s, w) \<Rightarrow>
      if analyze_btn inp \<and> url_input inp \<noteq> [] then
        if \<not> validate_url U (url_input inp) then (s, [Invalid_url_error], w)
        else
          (case extract_metadata U env (url_input inp) w of
             (Inr (Some md), w1) \<Rightarrow>
               (s\<lparr>metadata := Some md, file_ready := None\<rparr>, [Analyze_success], w1)
           | (Inr None, w1) \<Rightarrow> (s, [Cannot_analyze_error], w1)
           | (Inl e, w1) \<Rightarrow>
               (s, [Analyze_error (classify_analyze_error U (exn_str e))], w1))
      else (s, [], w))"

definition selected_extension :: "widgets \<Rightarrow> ustr" where
  "selected_extension inp =
     (if download_type_choice inp = video_label then extension_video inp
      else extension_audio inp)"

definition selected_quality :: "widgets \<Rightarrow> ustr" where
  "selected_quality inp =
     (if download_type_choice inp = video_label then quality_video inp
      else quality_audio inp)"

definition dl_type :: "widgets \<Rightarrow> ustr" where
  "dl_type inp =
     (if download_type_choice inp = video_label then ascii ''video'' else ascii ''audio'')"

definition handle_download ::
  "env \<Rightarrow> widgets \<Rightarrow> session_state \<times> world \<Rightarrow> session_state \<times> ui_event list \<times> world" where
  "handle_download env inp sw =
     (case sw of (s, w) \<Rightarrow>
      case metadata s of
        None \<Rightarrow> (s, [], w)
      | Some md \<Rightarrow>
          if download_btn inp then
            (case download_content env (md_url md) (dl_type inp)
                    (selected_extension inp) (selected_quality inp) w of
               (Inr (name, file_bytes), w1) \<Rightarrow>
                 (s\<lparr>file_ready := Some file_bytes, file_name := Some name\<rparr>,
                  [Download_success], w1)
             | (Inl e, w1) \<Rightarrow>
                 (s, [Download_error (if contains (ascii ''403'') (exn_str e)
                                      then Download_blocked
                                      else Download_raw (exn_str e))], w1))
          else (s, [], w))"

text \<open>
  One run of the script: the analysis handler, then, when metadata is present, the
  download handler. What follows in the source only draws widgets from the session
  state and writes none of its keys.
\<close>

definition main ::
  "unicode_db \<Rightarrow> env \<Rightarrow> widgets \<Rightarrow> session_state \<times> world \<Rightarrow>
     session_state \<times> ui_event list \<times> world" where
  "main U env inp sw =
     (case handle_analysis U env inp sw of
        (s1, ui1, w1) \<Rightarrow>
          (case handle_download env inp (s1, w1) of
             (s2, ui2, w2) \<Rightarrow> (s2, ui1 @ ui2, w2)))"

text \<open>Concrete surroundings on which the definitions are evaluated.\<close>

definition plain_db :: unicode_db where
  "plain_db = \<lparr>decimal_digit = (\<lambda>c. False), lower_full = (\<lambda>before c after. [c])\<rparr>"

definition empty_world :: world where
  "empty_world = \<lparr>files = (\<lambda>p. None), console = []\<rparr>"

definition fresh_session :: session_state where
  "fresh_session = \<lparr>metadata = None, file_ready = None, file_name = None\<rparr>"

definition tmp_name :: ustr where
  "tmp_name = ascii ''/tmp/tmpk3x''"


definition env_no_file :: env where
  "env_no_file =
     \<lparr> mkdtemp = (\<lambda>w. tmp_name),
       ydl_download = (\<lambda>opts urls w. (None, w)),
       ydl_extract_info = (\<lambda>url w. (Inr None, w)) \<rparr>"

definition env_failing :: env where
  "env_failing =
     \<lparr> mkdtemp = (\<lambda>w. tmp_name),
       ydl_download = (\<lambda>opts urls w.
          (Some (Exception (ascii ''HTTP Error 403: Forbidden'')),
           w\<lparr>files := (files w)(tmp_name \<mapsto> [(ascii ''clip.part'', ''C'')])\<rparr>)),
       ydl_extract_info = (\<lambda>url w. (Inl (Exception (ascii ''ERROR: login required'')), w)) \<rparr>"

text \<open>
  A session after an analysis, the same session after a download, and the widgets as
  they are read when one of the two buttons was pressed.
\<close>

definition md_example :: metadata where
  "md_example =
     \<lparr> md_title = PyStr (ascii ''clip''),
       md_duration = PyInt 0,
       md_thumbnail = PyStr [],
       md_uploader = PyStr (ascii ''Unknown''),
       md_view_count = PyInt 0,
       md_platform = other_label,
       md_url = ascii ''http://a.co'',
       md_formats = PyList [] \<rparr>"


definition session_with_file :: session_state where
  "session_with_file =
     \<lparr>metadata = Some md_example, file_ready = Some ''AB'',
      file_name = Some (ascii ''clip.mp4'')\<rparr>"


definition click_download :: widgets where
  "click_download =
     \<lparr> url_input = ascii ''http://a.co'', analyze_btn = False,
       download_type_choice = video_label,
       extension_video = ascii ''mp4'', extension_audio = ascii ''mp3'',
       quality_video = best_label, quality_audio = best_label,
       download_btn = True \<rparr>"

section \<open>Properties of the option builder\<close>

lemma ascii_eq_iff: "ascii s = ascii t \<longleftrightarrow> s = t"
  by (simp add: ascii_def inj_on_def)

lemma ascii_neq_best_label:
  "ascii ''4K (2160p)'' \<noteq> best_label" "ascii ''1080p'' \<noteq> best_label"
  "ascii ''720p'' \<noteq> best_label" "ascii ''192kbps'' \<noteq> best_label"
  "ascii ''128kbps'' \<noteq> best_label" "ascii ''best'' \<noteq> best_label"
  by (simp_all add: ascii_def best_label_def)

lemma video_format:
  "format (build_ydl_options d (ascii ''video'') e q) =
     Some (dict_get video_quality_map q (ascii ''bestvideo+bestaudio/best''))"
  by (simp add: build_ydl_options_def base_opts_def Let_def)

text \<open>
  Claim C1. For a video request the format selector comes from the quality-tier
  table: the tiers capped at 2160, 1080 and 720 lines each ask for the best video
  and the best audio stream under the cap, and every other tier label, the ASCII
  label \<open>best\<close> included, gives \<open>bestvideo+bestaudio/best\<close>. The builder is a total
  function with no failing branch. For video, \<open>mp4\<close> and the label \<open>best\<close> the
  selector is \<open>bestvideo+bestaudio/best\<close>, the merge container is \<open>mp4\<close> and one
  post-processor converts to \<open>mp4\<close>.
\<close>

theorem build_ydl_options_video:
  "(q = ascii ''4K (2160p)'' \<longrightarrow>
      format (build_ydl_options d (ascii ''video'') e q) =
        Some (ascii ''bestvideo[height<=2160]+bestaudio/best[height<=2160]'')) \<and>
   (q = ascii ''1080p'' \<longrightarrow>
      format (build_ydl_options d (ascii ''video'') e q) =
        Some (ascii ''bestvideo[height<=1080]+bestaudio/best[height<=1080]'')) \<and>
   (q = ascii ''720p'' \<longrightarrow>
      format (build_ydl_options d (ascii ''video'') e q) =
        Some (ascii ''bestvideo[height<=720]+bestaudio/best[height<=720]'')) \<and>
   (q \<notin> {ascii ''4K (2160p)'', ascii ''1080p'', ascii ''720p''} \<longrightarrow>
      format (build_ydl_options d (ascii ''video'') e q) =
        Some (ascii ''bestvideo+bestaudio/best'')) \<and>
   format (build_ydl_options d (ascii ''video'') (ascii ''mp4'') (ascii ''best'')) =
     Some (ascii ''bestvideo+bestaudio/best'') \<and>
   merge_output_format (build_ydl_options d (ascii ''video'') (ascii ''mp4'') (ascii ''best'')) =
     Some (ascii ''mp4'') \<and>
   postprocessors (build_ydl_options d (ascii ''video'') (ascii ''mp4'') (ascii ''best'')) =
     Some [[(ascii ''key'', ascii ''FFmpegVideoConvertor''),
            (ascii ''preferedformat'', ascii ''mp4'')]]"
proof -
  have tiers: "\<And>q. format (build_ydl_options d (ascii ''video'') e q) =
      Some (if q = ascii ''4K (2160p)''
              then ascii ''bestvideo[height<=2160]+bestaudio/best[height<=2160]''
            else if q = ascii ''1080p''
              then ascii ''bestvideo[height<=1080]+bestaudio/best[height<=1080]''
            else if q = ascii ''720p''
              then ascii ''bestvideo[height<=720]+bestaudio/best[height<=720]''
            else ascii ''bestvideo+bestaudio/best'')"
    by (simp add: video_format dict_get_def video_quality_map_def ascii_eq_iff
        ascii_neq_best_label)
  have mp4: "format (build_ydl_options d (ascii ''video'') (ascii ''mp4'') (ascii ''best'')) =
      Some (ascii ''bestvideo+bestaudio/best'')"
    by (simp add: video_format dict_get_def video_quality_map_def ascii_eq_iff
        ascii_neq_best_label)
  have merge: "merge_output_format
      (build_ydl_options d (ascii ''video'') (ascii ''mp4'') (ascii ''best'')) =
      Some (ascii ''mp4'')"
    by (simp add: build_ydl_options_def base_opts_def Let_def)
  have pp: "postprocessors
      (build_ydl_options d (ascii ''video'') (ascii ''mp4'') (ascii ''best'')) =
      Some [[(ascii ''key'', ascii ''FFmpegVideoConvertor''),
             (ascii ''preferedformat'', ascii ''mp4'')]]"
    by (simp add: build_ydl_options_def base_opts_def Let_def)
  show ?thesis
    using mp4 merge pp by (simp add: tiers ascii_eq_iff)
qed

theorem build_ydl_options_video_witness:
  "format (build_ydl_options (ascii ''/tmp/x'') (ascii ''video'') (ascii ''mkv'')
      (ascii ''4K (2160p)'')) =
     Some (ascii ''bestvideo[height<=2160]+bestaudio/best[height<=2160]'') \<and>
   format (build_ydl_options (ascii ''/tmp/x'') (ascii ''video'') (ascii ''mkv'')
      (ascii ''1080p'')) =
     Some (ascii ''bestvideo[height<=1080]+bestaudio/best[height<=1080]'') \<and>
   format (build_ydl_options (ascii ''/tmp/x'') (ascii ''video'') (ascii ''mkv'')
      (ascii ''720p'')) =
     Some (ascii ''bestvideo[height<=720]+bestaudio/best[height<=720]'') \<and>
   ascii ''480p'' \<notin> {ascii ''4K (2160p)'', ascii ''1080p'', ascii ''720p''} \<and>
   format (build_ydl_options (ascii ''/tmp/x'') (ascii ''video'') (ascii ''mkv'')
      (ascii ''480p'')) =
     Some (ascii ''bestvideo+bestaudio/best'')"
  using build_ydl_options_video [of "ascii ''4K (2160p)''" "ascii ''/tmp/x''" "ascii ''mkv''"]
    build_ydl_options_video [of "ascii ''1080p''" "ascii ''/tmp/x''" "ascii ''mkv''"]
    build_ydl_options_video [of "ascii ''720p''" "ascii ''/tmp/x''" "ascii ''mkv''"]
    build_ydl_options_video [of "ascii ''480p''" "ascii ''/tmp/x''" "ascii ''mkv''"]
  by (simp add: ascii_eq_iff)

text \<open>
  Claim C5. For a request that is not a video request (the audio branch) the format
  selector is \<open>bestaudio/best\<close> whatever the extension and the quality, and the one
  post-processor extracts audio with the requested codec for \<open>mp3\<close>, \<open>m4a\<close> and
  \<open>wav\<close> and with \<open>mp3\<close> for any other extension, at quality \<open>0\<close> for the best tier,
  \<open>192\<close> and \<open>128\<close> for the two bitrate tiers and \<open>0\<close> for any other tier. The builder
  is total, so no input makes it fail.
\<close>

theorem build_ydl_options_audio:
  assumes "download_type \<noteq> ascii ''video''"
  shows "format (build_ydl_options d download_type e q) = Some (ascii ''bestaudio/best'') \<and>
    postprocessors (build_ydl_options d download_type e q) =
      Some [[(ascii ''key'', ascii ''FFmpegExtractAudio''),
             (ascii ''preferredcodec'',
                if e \<in> {ascii ''mp3'', ascii ''m4a'', ascii ''wav''} then e else ascii ''mp3''),
             (ascii ''preferredquality'',
                if q = best_label then ascii ''0''
                else if q = ascii ''192kbps'' then ascii ''192''
                else if q = ascii ''128kbps'' then ascii ''128''
                else ascii ''0'')]]"
proof -
  have codec: "dict_get format_map e (ascii ''mp3'') =
      (if e \<in> {ascii ''mp3'', ascii ''m4a'', ascii ''wav''} then e else ascii ''mp3'')"
    by (simp add: dict_get_def format_map_def)
  have qual: "dict_get audio_quality_map q (ascii ''0'') =
      (if q = best_label then ascii ''0''
       else if q = ascii ''192kbps'' then ascii ''192''
       else if q = ascii ''128kbps'' then ascii ''128''
       else ascii ''0'')"
    by (simp add: dict_get_def audio_quality_map_def)
  show ?thesis
    using assms unfolding codec [symmetric] qual [symmetric]
    by (simp add: build_ydl_options_def base_opts_def Let_def)
qed

theorem build_ydl_options_audio_witness:
  "ascii ''audio'' \<noteq> ascii ''video'' \<and>
   format (build_ydl_options (ascii ''/tmp/x'') (ascii ''audio'') (ascii ''flac'')
      (ascii ''192kbps'')) = Some (ascii ''bestaudio/best'') \<and>
   postprocessors (build_ydl_options (ascii ''/tmp/x'') (ascii ''audio'') (ascii ''flac'')
      (ascii ''192kbps'')) =
     Some [[(ascii ''key'', ascii ''FFmpegExtractAudio''),
            (ascii ''preferredcodec'', ascii ''mp3''),
            (ascii ''preferredquality'', ascii ''192'')]]"
proof -
  have neq: "ascii ''audio'' \<noteq> ascii ''video''"
    by (simp add: ascii_eq_iff)
  show ?thesis
    using neq build_ydl_options_audio [OF neq, of "ascii ''/tmp/x''" "ascii ''flac''"
        "ascii ''192kbps''"]
    by (simp add: ascii_eq_iff ascii_neq_best_label)
qed

section \<open>Properties of the download orchestrator\<close>

lemma files_exit_scratch: "files (exit_scratch d w) d = None"
  by (simp add: exit_scratch_def)

text \<open>
  Claim C3. Whatever the fetch does, and whether the call returns a file, raises the
  error for a missing file or passes on what the library raised, the scratch
  directory that the call created is gone from the world, with its entries, when the
  call is over.
\<close>

theorem download_content_cleans_up:
  assumes "enter_scratch env (log_to_console (Log_start_download t e q) w) = (temp_dir, w1)"
  shows "files (snd (download_content env url t e q w)) temp_dir = None"
  using assms
  by (simp add: download_content_def Let_def files_exit_scratch split: prod.splits)

text \<open>
  Claim C2. When the fetch returns without raising and the scratch directory then
  has no entry, the call raises the error whose message is \<open>no_file_message\<close>; it
  does not return a name with empty content.
\<close>

theorem download_content_no_file:
  assumes "enter_scratch env (log_to_console (Log_start_download t e q) w) = (temp_dir, w1)"
    and "ydl_download env (build_ydl_options temp_dir t e q) [url] w1 = (None, w2)"
    and "glob_all temp_dir w2 = []"
  shows "fst (download_content env url t e q w) = Inl (Exception no_file_message)"
  using assms
  by (simp add: download_content_def fetch_and_read_def Let_def)


text \<open>The three theorems at work on concrete libraries.\<close>

lemmas world_eval = enter_scratch_def exit_scratch_def glob_all_def log_to_console_def
  empty_world_def Let_def

theorem download_content_cleans_up_witness:
  "enter_scratch env_failing
      (log_to_console (Log_start_download (ascii ''video'') (ascii ''mp4'') best_label)
         empty_world) =
     (tmp_name,
      \<lparr>files = (\<lambda>p. None)(tmp_name \<mapsto> []),
       console = [Log_start_download (ascii ''video'') (ascii ''mp4'') best_label]\<rparr>) \<and>
   files (snd (download_content env_failing (ascii ''http://a.co/v'') (ascii ''video'')
                 (ascii ''mp4'') best_label empty_world)) tmp_name = None"
proof -
  have h: "enter_scratch env_failing
      (log_to_console (Log_start_download (ascii ''video'') (ascii ''mp4'') best_label)
         empty_world) =
     (tmp_name,
      \<lparr>files = (\<lambda>p. None)(tmp_name \<mapsto> []),
       console = [Log_start_download (ascii ''video'') (ascii ''mp4'') best_label]\<rparr>)"
    by (simp add: world_eval env_failing_def)
  show ?thesis
    using h download_content_cleans_up [OF h, of "ascii ''http://a.co/v''"] by simp
qed

theorem download_content_no_file_witness:
  "enter_scratch env_no_file
      (log_to_console (Log_start_download (ascii ''audio'') (ascii ''mp3'') best_label)
         empty_world) =
     (tmp_name,
      \<lparr>files = (\<lambda>p. None)(tmp_name \<mapsto> []),
       console = [Log_start_download (ascii ''audio'') (ascii ''mp3'') best_label]\<rparr>) \<and>
   ydl_download env_no_file
      (build_ydl_options tmp_name (ascii ''audio'') (ascii ''mp3'') best_label)
      [ascii ''http://a.co/v'']
      \<lparr>files = (\<lambda>p. None)(tmp_name \<mapsto> []),
       console = [Log_start_download (ascii ''audio'') (ascii ''mp3'') best_label]\<rparr> =
     (None,
      \<lparr>files = (\<lambda>p. None)(tmp_name \<mapsto> []),
       console = [Log_start_download (ascii ''audio'') (ascii ''mp3'') best_label]\<rparr>) \<and>
   glob_all tmp_name
      \<lparr>files = (\<lambda>p. None)(tmp_name \<mapsto> []),
       console = [Log_start_download (ascii ''audio'') (ascii ''mp3'') best_label]\<rparr> = [] \<and>
   fst (download_content env_no_file (ascii ''http://a.co/v'') (ascii ''audio'')
          (ascii ''mp3'') best_label empty_world) = Inl (Exception no_file_message)"
proof -
  let ?w1 = "\<lparr>files = (\<lambda>p. None)(tmp_name \<mapsto> []),
       console = [Log_start_download (ascii ''audio'') (ascii ''mp3'') best_label]\<rparr>"
  have h1: "enter_scratch env_no_file
      (log_to_console (Log_start_download (ascii ''audio'') (ascii ''mp3'') best_label)
         empty_world) = (tmp_name, ?w1)"
    by (simp add: world_eval env_no_file_def)
  have h2: "ydl_download env_no_file
      (build_ydl_options tmp_name (ascii ''audio'') (ascii ''mp3'') best_label)
      [ascii ''http://a.co/v''] ?w1 = (None, ?w1)"
    by (simp add: env_no_file_def)
  have h3: "glob_all tmp_name ?w1 = []"
    by (simp add: glob_all_def)
  show ?thesis
    using h1 h2 h3 download_content_no_file [OF h1 h2 h3] by simp
qed


section \<open>Properties of text search and lower-casing\<close>

lemma starts_with_iff: "starts_with xs ys \<longleftrightarrow> (\<exists>ss. ys = xs @ ss)"
  by (induction xs ys rule: starts_with.induct) auto

lemma contains_iff: "contains xs ys \<longleftrightarrow> (\<exists>ps ss. ys = ps @ xs @ ss)"
proof (induction ys)
  case Nil
  then show ?case by auto
next
  case (Cons y ys)
  show ?case
  proof
    assume "contains xs (y # ys)"
    then consider "starts_with xs (y # ys)" | "contains xs ys" by auto
    then show "\<exists>ps ss. y # ys = ps @ xs @ ss"
    proof cases
      case 1
      then obtain ss where "y # ys = xs @ ss" by (auto simp: starts_with_iff)
      then have "y # ys = [] @ xs @ ss" by simp
      then show ?thesis by blast
    next
      case 2
      then obtain ps ss where "ys = ps @ xs @ ss" using Cons.IH by auto
      then have "y # ys = (y # ps) @ xs @ ss" by simp
      then show ?thesis by blast
    qed
  next
    assume "\<exists>ps ss. y # ys = ps @ xs @ ss"
    then obtain ps ss where eq: "y # ys = ps @ xs @ ss" by blast
    show "contains xs (y # ys)"
    proof (cases ps)
      case Nil
      then have "starts_with xs (y # ys)" using eq by (auto simp: starts_with_iff)
      then show ?thesis by simp
    next
      case (Cons p ps')
      then have "ys = ps' @ xs @ ss" using eq by simp
      then have "contains xs ys" using Cons.IH by blast
      then show ?thesis by simp
    qed
  qed
qed

lemma lower_from_stable_prefix:
  "\<forall>c\<in>set n. c < 128 \<and> \<not> (65 \<le> c \<and> c \<le> 90) \<Longrightarrow>
   lower_from U b (n @ ss) = n @ lower_from U (b @ n) ss"
  by (induction n arbitrary: b) auto

lemma lower_from_keeps:
  assumes "\<forall>c\<in>set n. c < 128 \<and> \<not> (65 \<le> c \<and> c \<le> 90)"
  shows "\<exists>pre post. lower_from U b (ps @ n @ ss) = pre @ n @ post"
proof (induction ps arbitrary: b)
  case Nil
  have "lower_from U b (n @ ss) = [] @ n @ lower_from U (b @ n) ss"
    by (simp add: lower_from_stable_prefix [OF assms])
  then show ?case by (metis append_Nil)
next
  case (Cons p ps)
  obtain pre post where "lower_from U (b @ [p]) (ps @ n @ ss) = pre @ n @ post"
    using Cons.IH by blast
  then have "lower_from U b ((p # ps) @ n @ ss) =
      ((if p < 128 then [if 65 \<le> p \<and> p \<le> 90 then p + 32 else p]
        else lower_full U b p (ps @ n @ ss)) @ pre) @ n @ post"
    by simp
  then show ?case by blast
qed

lemma contains_py_lower:
  assumes "contains n s" and "\<forall>c\<in>set n. c < 128 \<and> \<not> (65 \<le> c \<and> c \<le> 90)"
  shows "contains n (py_lower U s)"
proof -
  obtain ps ss where s: "s = ps @ n @ ss" using assms(1) by (auto simp: contains_iff)
  obtain pre post where "py_lower U s = pre @ n @ post"
    unfolding py_lower_def s using lower_from_keeps [OF assms(2)] by blast
  then show ?thesis unfolding contains_iff by blast
qed

section \<open>Properties of the error classifier\<close>

text \<open>
  Claim C9. When the text of an extraction error contains \<open>login required\<close>, the
  chain of tests takes its first branch, the message that the platform requires a
  login, and not the last one, which shows the first hundred code points of the raw
  text.
\<close>

theorem login_required_selects_login_branch:
  assumes "contains (ascii ''login required'') error_msg"
  shows "classify_analyze_error U error_msg = Login_required \<and>
         classify_analyze_error U error_msg \<noteq> Raw_error (take 100 error_msg)"
proof -
  obtain ps ss where "error_msg = ps @ ascii ''login required'' @ ss"
    using assms by (auto simp: contains_iff)
  then have "error_msg = ps @ ascii ''login'' @ (ascii '' required'' @ ss)"
    by (simp add: ascii_def)
  then have "contains (ascii ''login'') error_msg"
    unfolding contains_iff by blast
  moreover have "\<forall>c\<in>set (ascii ''login''). c < 128 \<and> \<not> (65 \<le> c \<and> c \<le> 90)"
    by (simp add: ascii_def)
  ultimately have "contains (ascii ''login'') (py_lower U error_msg)"
    by (rule contains_py_lower)
  then show ?thesis by (simp add: classify_analyze_error_def)
qed

theorem login_required_selects_login_branch_witness:
  "contains (ascii ''login required'') (ascii ''ERROR: [Instagram] login required to view'') \<and>
   classify_analyze_error plain_db (ascii ''ERROR: [Instagram] login required to view'') =
     Login_required"
proof -
  have h: "contains (ascii ''login required'') (ascii ''ERROR: [Instagram] login required to view'')"
    by (simp add: ascii_def)
  show ?thesis
    using h login_required_selects_login_branch [OF h, of plain_db] by simp
qed

section \<open>Properties of the platform identifier\<close>

lemma platforms_loop_first:
  "tbl = before @ (d, n) # after \<Longrightarrow> contains d (py_lower U url) \<Longrightarrow>
   \<forall>(d', n') \<in> set before. \<not> contains d' (py_lower U url) \<Longrightarrow>
   platforms_loop U tbl url = n"
  by (induction before arbitrary: tbl) auto

lemma platforms_loop_none:
  "\<forall>(d, n) \<in> set tbl. \<not> contains d (py_lower U url) \<Longrightarrow>
   platforms_loop U tbl url = other_label"
  by (induction tbl) auto

text \<open>
  Claim C8. The platform identifier is a total function. It returns the label of the
  first entry of the table, in the order of the table, whose domain occurs in the
  lower-cased URL, and the label \<open>other_label\<close> when no domain occurs.
\<close>

theorem get_platform_name_first_match:
  "(\<forall>before d n after.
      platforms = before @ (d, n) # after \<and> contains d (py_lower U url) \<and>
      (\<forall>(d', n') \<in> set before. \<not> contains d' (py_lower U url))
      \<longrightarrow> get_platform_name U url = n) \<and>
   ((\<forall>(d, n) \<in> set platforms. \<not> contains d (py_lower U url))
      \<longrightarrow> get_platform_name U url = other_label)"
  unfolding get_platform_name_def
  using platforms_loop_first platforms_loop_none by blast

lemmas lower_eval = py_lower_def ascii_def plain_db_def

theorem get_platform_name_first_match_witness:
  "platforms = [(ascii ''youtube.com'', ascii ''YouTube'')] @
      (ascii ''youtu.be'', ascii ''YouTube'') # drop 2 platforms \<and>
   contains (ascii ''youtu.be'') (py_lower plain_db (ascii ''https://www.TikTok.com/?u=YouTu.be'')) \<and>
   \<not> contains (ascii ''youtube.com'')
       (py_lower plain_db (ascii ''https://www.TikTok.com/?u=YouTu.be'')) \<and>
   get_platform_name plain_db (ascii ''https://www.TikTok.com/?u=YouTu.be'') = ascii ''YouTube'' \<and>
   list_all (\<lambda>(d, n). \<not> contains d (py_lower plain_db (ascii ''http://a.co/''))) platforms \<and>
   get_platform_name plain_db (ascii ''http://a.co/'') = other_label"
proof -
  let ?u = "ascii ''https://www.TikTok.com/?u=YouTu.be''"
  have low: "py_lower plain_db ?u = ascii ''https://www.tiktok.com/?u=youtu.be''"
    by (simp add: lower_eval)
  have split: "platforms = [(ascii ''youtube.com'', ascii ''YouTube'')] @
      (ascii ''youtu.be'', ascii ''YouTube'') # drop 2 platforms"
    by (simp add: platforms_def)
  have hit: "contains (ascii ''youtu.be'') (py_lower plain_db ?u)"
    unfolding low by (simp add: ascii_def)
  have miss: "\<not> contains (ascii ''youtube.com'') (py_lower plain_db ?u)"
    unfolding low by (simp add: ascii_def)
  have low2: "py_lower plain_db (ascii ''http://a.co/'') = ascii ''http://a.co/''"
    by (simp add: lower_eval)
  have none: "\<forall>(d, n) \<in> set platforms. \<not> contains d (py_lower plain_db (ascii ''http://a.co/''))"
    unfolding low2 by (simp add: platforms_def ascii_def)
  have pre: "\<forall>(d', n') \<in> set [(ascii ''youtube.com'', ascii ''YouTube'')].
      \<not> contains d' (py_lower plain_db ?u)"
    using miss by simp
  have first: "get_platform_name plain_db ?u = ascii ''YouTube''"
    using conjunct1 [OF get_platform_name_first_match [of plain_db ?u]] split hit pre
    by blast
  have other: "get_platform_name plain_db (ascii ''http://a.co/'') = other_label"
    using conjunct2 [OF get_platform_name_first_match [of plain_db "ascii ''http://a.co/''"]] none
    by blast
  have all: "list_all (\<lambda>(d, n). \<not> contains d (py_lower plain_db (ascii ''http://a.co/'')))
      platforms"
    using none by (simp add: list_all_iff)
  show ?thesis using split hit miss all first other by blast
qed

section \<open>Properties of the URL validator\<close>

text \<open>The matcher accepts exactly the texts of the language of the pattern.\<close>

lemma nullable_lang: "nullable r \<longleftrightarrow> [] \<in> lang r"
  by (induction r) (auto intro: lang_star.star_empty)

lemma lang_rx_alt: "lang (rx_alt r s) = lang r \<union> lang s"
  by (cases "(r, s)" rule: rx_alt.cases) auto

lemma lang_rx_seq: "lang (rx_seq r s) = lang (Seq r s)"
  by (cases "(r, s)" rule: rx_seq.cases) auto

lemma star_cons_split:
  assumes "x \<in> lang_star A" and "x = c # w"
  shows "\<exists>u v. w = u @ v \<and> c # u \<in> A \<and> v \<in> lang_star A"
  using assms
proof (induction arbitrary: w rule: lang_star.induct)
  case star_empty
  then show ?case by simp
next
  case (star_step u v)
  show ?case
  proof (cases u)
    case Nil
    then show ?thesis using star_step by simp
  next
    case (Cons d u')
    then have "c # u' \<in> A" "w = u' @ v" using star_step by auto
    then show ?thesis using star_step.hyps(2) by blast
  qed
qed

lemma star_cons_iff:
  "c # w \<in> lang_star A \<longleftrightarrow> (\<exists>u v. w = u @ v \<and> c # u \<in> A \<and> v \<in> lang_star A)"
proof
  assume "c # w \<in> lang_star A"
  then show "\<exists>u v. w = u @ v \<and> c # u \<in> A \<and> v \<in> lang_star A"
    by (rule star_cons_split) simp
next
  assume "\<exists>u v. w = u @ v \<and> c # u \<in> A \<and> v \<in> lang_star A"
  then obtain u v where "w = u @ v" "c # u \<in> A" "v \<in> lang_star A" by blast
  then have "(c # u) @ v \<in> lang_star A" by (intro lang_star.star_step)
  then show "c # w \<in> lang_star A" using \<open>w = u @ v\<close> by simp
qed

lemma lang_deriv: "lang (deriv c r) = {w. c # w \<in> lang r}"
proof (induction r)
  case (Seq r s)
  have "{w. c # w \<in> lang (Seq r s)} =
      {u @ v | u v. c # u \<in> lang r \<and> v \<in> lang s} \<union>
      (if [] \<in> lang r then {w. c # w \<in> lang s} else {})"
    by (auto simp: Cons_eq_append_conv)
  then show ?case
    using Seq by (auto simp: lang_rx_alt lang_rx_seq nullable_lang)
next
  case (Star r)
  then show ?case by (auto simp: lang_rx_seq star_cons_iff)
qed (auto simp: lang_rx_alt)

lemma rx_match_lang: "rx_match r s \<longleftrightarrow> s \<in> lang r"
  by (induction s arbitrary: r) (auto simp: nullable_lang lang_deriv)

text \<open>Rules that unfold the bounded repetitions of the pattern on numerals.\<close>

lemma rx_at_most_numeral:
  "rx_at_most (numeral k) r = rx_opt (Seq r (rx_at_most (pred_numeral k) r))"
  by (simp add: numeral_eq_Suc)

lemma rx_exactly_numeral:
  "rx_exactly (numeral k) r = Seq r (rx_exactly (pred_numeral k) r)"
  by (simp add: numeral_eq_Suc)

lemma rx_at_most_1: "rx_at_most 1 r = rx_opt (Seq r Eps)"
  using rx_at_most.simps(2) [of 0 r] by simp

lemma rx_exactly_1: "rx_exactly 1 r = Seq r Eps"
  using rx_exactly.simps(2) [of 0 r] by simp

lemmas rx_eval = validate_url_def url_pattern_def strip_def isspace_def ascii_def
  rx_opt_def rx_plus_def rx_between_def lit_def lit_i_def ignorecase_eq_def letter_i_def
  ascii_digit_def digit_def rx_at_most_numeral rx_exactly_numeral rx_at_most_1
  rx_exactly_1 Let_def


lemma long_s_not_scheme:
  "\<not> has_http_scheme (ascii ''http'' @ [0x17f] @ ascii ''://a.co'')"
  by (simp add: has_http_scheme_def ascii_fold_def ascii_def)

text \<open>
  Claim C7. The validator is meant to return false for every text that contains no
  \<open>http\<close> or \<open>https\<close> scheme. The text \<open>http\<close>, U+017F, \<open>://a.co\<close> contains
  neither \<open>http://\<close> nor \<open>https://\<close>, yet the validator returns true for it: under
  \<open>re.IGNORECASE\<close> the letter \<open>s\<close> of the pattern also matches the long s.
\<close>

theorem validate_url_accepts_long_s:
  "validate_url U (ascii ''http'' @ [0x17f] @ ascii ''://a.co'') \<and>
   \<not> has_http_scheme (ascii ''http'' @ [0x17f] @ ascii ''://a.co'')"
proof -
  have "validate_url U (ascii ''http'' @ [0x17f] @ ascii ''://a.co'')"
    by (simp add: rx_eval)
  then show ?thesis using long_s_not_scheme by simp
qed

text \<open>
  The long s is the only way past the scheme test: a text in which U+017F does not
  occur is accepted only if it contains \<open>http://\<close> or \<open>https://\<close>, the case of ASCII
  letters aside.
\<close>

lemma rx_match_Fail: "\<not> rx_match Fail s"
  by (induction s) auto

lemma rx_match_rx_alt:
  assumes "\<And>a b. rx_match (Alt a b) s \<Longrightarrow> rx_match a s \<or> rx_match b s"
    and "rx_match (rx_alt x y) s"
  shows "rx_match x s \<or> rx_match y s"
  using assms by (cases "(x, y)" rule: rx_alt.cases) auto

lemma rx_match_Alt: "rx_match (Alt a b) s \<Longrightarrow> rx_match a s \<or> rx_match b s"
proof (induction s arbitrary: a b)
  case Nil
  then show ?case by simp
next
  case (Cons c s)
  then have "rx_match (rx_alt (deriv c a) (deriv c b)) s" by simp
  then have "rx_match (deriv c a) s \<or> rx_match (deriv c b) s"
    using Cons.IH by (rule rx_match_rx_alt [rotated])
  then show ?case by simp
qed

lemma rx_match_Seq_Atom:
  assumes "rx_match (Seq (Atom p) r) s"
  shows "\<exists>c t. s = c # t \<and> p c \<and> rx_match r t"
proof (cases s)
  case Nil
  then show ?thesis using assms by simp
next
  case (Cons c t)
  then show ?thesis using assms by (cases "p c") (auto simp: rx_match_Fail)
qed

lemma rx_match_Seq_opt_Atom:
  assumes "rx_match (Seq (rx_opt (Atom p)) r) s"
  shows "rx_match r s \<or> (\<exists>c t. s = c # t \<and> p c \<and> rx_match r t)"
proof (cases s)
  case Nil
  then show ?thesis using assms by (simp add: rx_opt_def)
next
  case (Cons c t)
  then have "rx_match (rx_alt (if p c then r else Fail) (deriv c r)) t"
    using assms by (cases "p c") (simp_all add: rx_opt_def)
  then have "rx_match (if p c then r else Fail) t \<or> rx_match (deriv c r) t"
    using rx_match_Alt by (rule rx_match_rx_alt [rotated])
  then show ?thesis using Cons by (auto simp: rx_match_Fail split: if_splits)
qed

lemma ignorecase_fold:
  "ignorecase_eq x c \<Longrightarrow> 97 \<le> x \<Longrightarrow> x \<le> 122 \<Longrightarrow>
   ascii_fold c = x \<or> c = 0x17f \<or> c = 0x212a \<or> c = 0x130 \<or> c = 0x131"
  by (auto simp: ignorecase_eq_def ascii_fold_def)

lemma scheme_of_match:
  assumes "rx_match (seqs (lit_i CHR ''h'' # lit_i CHR ''t'' # lit_i CHR ''t'' #
      lit_i CHR ''p'' # rx_opt (lit_i CHR ''s'') # lit CHR '':'' # lit CHR ''/'' #
      lit CHR ''/'' # rest)) s"
    and "0x17f \<notin> set s"
  shows "starts_with (ascii ''http://'') (map ascii_fold s) \<or>
         starts_with (ascii ''https://'') (map ascii_fold s)"
proof -
  from assms(1) obtain a s1 where 1: "s = a # s1" "ignorecase_eq 0x68 a"
    and m1: "rx_match (seqs (lit_i CHR ''t'' # lit_i CHR ''t'' #
      lit_i CHR ''p'' # rx_opt (lit_i CHR ''s'') # lit CHR '':'' # lit CHR ''/'' #
      lit CHR ''/'' # rest)) s1"
    by (auto simp: lit_i_def dest!: rx_match_Seq_Atom)
  from m1 obtain b s2 where 2: "s1 = b # s2" "ignorecase_eq 0x74 b"
    and m2: "rx_match (seqs (lit_i CHR ''t'' #
      lit_i CHR ''p'' # rx_opt (lit_i CHR ''s'') # lit CHR '':'' # lit CHR ''/'' #
      lit CHR ''/'' # rest)) s2"
    by (auto simp: lit_i_def dest!: rx_match_Seq_Atom)
  from m2 obtain c s3 where 3: "s2 = c # s3" "ignorecase_eq 0x74 c"
    and m3: "rx_match (seqs (lit_i CHR ''p'' # rx_opt (lit_i CHR ''s'') # lit CHR '':'' #
      lit CHR ''/'' # lit CHR ''/'' # rest)) s3"
    by (auto simp: lit_i_def dest!: rx_match_Seq_Atom)
  from m3 obtain d s4 where 4: "s3 = d # s4" "ignorecase_eq 0x70 d"
    and m4: "rx_match (seqs (rx_opt (lit_i CHR ''s'') # lit CHR '':'' #
      lit CHR ''/'' # lit CHR ''/'' # rest)) s4"
    by (auto simp: lit_i_def dest!: rx_match_Seq_Atom)
  have tail: "\<exists>t3. t = 0x3a # 0x2f # 0x2f # t3"
    if "rx_match (seqs (lit CHR '':'' # lit CHR ''/'' # lit CHR ''/'' # rest)) t" for t
  proof -
    from that obtain t1 where "t = 0x3a # t1"
      "rx_match (seqs (lit CHR ''/'' # lit CHR ''/'' # rest)) t1"
      by (auto simp: lit_def dest!: rx_match_Seq_Atom)
    moreover from this obtain t2 where "t1 = 0x2f # t2"
      "rx_match (seqs (lit CHR ''/'' # rest)) t2"
      by (auto simp: lit_def dest!: rx_match_Seq_Atom)
    moreover from this obtain t3 where "t2 = 0x2f # t3"
      by (auto simp: lit_def dest!: rx_match_Seq_Atom)
    ultimately show ?thesis by simp
  qed
  have folds: "ascii_fold a = 0x68" "ascii_fold b = 0x74" "ascii_fold c = 0x74"
    "ascii_fold d = 0x70"
    using 1 2 3 4 by (auto simp: ignorecase_eq_def ascii_fold_def)
  from m4 consider
      "rx_match (seqs (lit CHR '':'' # lit CHR ''/'' # lit CHR ''/'' # rest)) s4"
    | e s5 where "s4 = e # s5" "ignorecase_eq 0x73 e"
        "rx_match (seqs (lit CHR '':'' # lit CHR ''/'' # lit CHR ''/'' # rest)) s5"
    by (auto simp: lit_i_def dest!: rx_match_Seq_opt_Atom)
  then show ?thesis
  proof cases
    case 1
    then obtain t3 where "s4 = 0x3a # 0x2f # 0x2f # t3" using tail by blast
    then show ?thesis
      using \<open>s = a # s1\<close> 2 3 4 folds by (simp add: ascii_def ascii_fold_def)
  next
    case 2
    then obtain t3 where "s5 = 0x3a # 0x2f # 0x2f # t3" using tail by blast
    moreover have "e \<noteq> 0x17f"
      using assms(2) \<open>s = a # s1\<close> \<open>s1 = b # s2\<close> \<open>s2 = c # s3\<close> \<open>s3 = d # s4\<close> 2(1) by auto
    then have "ascii_fold e = 0x73"
      using 2(2) by (auto simp: ignorecase_eq_def ascii_fold_def)
    ultimately show ?thesis
      using \<open>s = a # s1\<close> \<open>s1 = b # s2\<close> \<open>s2 = c # s3\<close> \<open>s3 = d # s4\<close> 2(1) folds
      by (simp add: ascii_def ascii_fold_def)
  qed
qed

lemma strip_decomp: "\<exists>pre post. s = pre @ strip s @ post"
proof -
  let ?t = "dropWhile isspace s"
  have "s = takeWhile isspace s @ ?t" by simp
  moreover have "rev ?t = takeWhile isspace (rev ?t) @ dropWhile isspace (rev ?t)" by simp
  then have "?t = rev (dropWhile isspace (rev ?t)) @ rev (takeWhile isspace (rev ?t))"
    by (metis rev_append rev_rev_ident)
  ultimately have "s = takeWhile isspace s @ strip s @ rev (takeWhile isspace (rev ?t))"
    by (simp add: strip_def)
  then show ?thesis by blast
qed

lemma validate_url_needs_scheme:
  assumes "validate_url U url" and "0x17f \<notin> set url"
  shows "has_http_scheme url"
proof -
  obtain pre post where d: "url = pre @ strip url @ post"
    using strip_decomp by blast
  then have "set (strip url) \<subseteq> set url"
    by (metis Un_upper1 Un_upper2 set_append subset_trans)
  then have no: "0x17f \<notin> set (strip url)" using assms(2) by auto
  have "rx_match (url_pattern U) (strip url)"
    using assms(1) by (simp add: validate_url_def split: if_splits)
  then have "starts_with (ascii ''http://'') (map ascii_fold (strip url)) \<or>
      starts_with (ascii ''https://'') (map ascii_fold (strip url))"
    unfolding url_pattern_def Let_def by (rule scheme_of_match) (rule no)
  then obtain n ss where n: "n = ascii ''http://'' \<or> n = ascii ''https://''"
    and "map ascii_fold (strip url) = n @ ss"
    by (auto simp: starts_with_iff)
  then have "map ascii_fold url = map ascii_fold pre @ n @ (ss @ map ascii_fold post)"
    using d by (metis append.assoc map_append)
  then have "contains n (map ascii_fold url)"
    unfolding contains_iff by blast
  then show ?thesis using n by (auto simp: has_http_scheme_def)
qed

section \<open>Properties of the session state\<close>







lemma download_fails:
  "fst (download_content env_failing (md_url md_example) (dl_type click_download)
          (selected_extension click_download) (selected_quality click_download) empty_world) =
     Inl (Exception (ascii ''HTTP Error 403: Forbidden''))"
  by (simp add: download_content_def fetch_and_read_def enter_scratch_def exit_scratch_def
      log_to_console_def env_failing_def Let_def split: prod.splits)







text \<open>
  Claim C6. When a download is attempted and fails, because the fetch raised or left
  no file, the download handler leaves the whole session state as it was; the
  metadata of the earlier analysis is still there. The same holds for the whole run
  of the script when the analysis button was not pressed in it.
\<close>

theorem failed_download_keeps_metadata:
  assumes "metadata s = Some md" and "download_btn inp"
    and "fst (download_content env (md_url md) (dl_type inp) (selected_extension inp)
                (selected_quality inp) w) = Inl e"
  shows "fst (handle_download env inp (s, w)) = s \<and>
         metadata (fst (handle_download env inp (s, w))) = Some md \<and>
         (\<not> analyze_btn inp \<longrightarrow> metadata (fst (main U env inp (s, w))) = Some md)"
proof -
  have h: "fst (handle_download env inp (s, w)) = s"
    using assms
    by (cases "download_content env (md_url md) (dl_type inp) (selected_extension inp)
                (selected_quality inp) w")
      (auto simp: handle_download_def split: sum.splits)
  have "\<not> analyze_btn inp \<Longrightarrow> fst (main U env inp (s, w)) = s"
    using h by (simp add: main_def handle_analysis_def split: prod.splits)
  then show ?thesis using h assms(1) by auto
qed

theorem failed_download_keeps_metadata_witness:
  "metadata session_with_file = Some md_example \<and>
   download_btn click_download \<and>
   fst (download_content env_failing (md_url md_example) (dl_type click_download)
          (selected_extension click_download) (selected_quality click_download) empty_world) =
     Inl (Exception (ascii ''HTTP Error 403: Forbidden'')) \<and>
   fst (handle_download env_failing click_download (session_with_file, empty_world)) =
     session_with_file \<and>
   \<not> analyze_btn click_download \<and>
   metadata (fst (main plain_db env_failing click_download (session_with_file, empty_world))) =
     Some md_example"
proof -
  have h1: "metadata session_with_file = Some md_example"
    by (simp add: session_with_file_def)
  have h2: "download_btn click_download" and h3: "\<not> analyze_btn click_download"
    by (simp_all add: click_download_def)
  show ?thesis
    using h1 h2 h3 download_fails
      failed_download_keeps_metadata [OF h1 h2 download_fails, of plain_db]
    by simp
qed

end
